theory Spec2Isabelle
  imports Complex_Main "HOL-Library.Stream"
begin

unbundle bit_operations_syntax

section \<open>BB84 simulation: the honest channel and the intercept-resend eavesdropper\<close>

text \<open>
  The two scripts (\<^verbatim>\<open>bb84_sim.py\<close> and \<^verbatim>\<open>TEST/PARTE_2/bb84_eve_sim.py\<close>) work on
  Python lists of bits (\<^verbatim>\<open>int\<close>), of bases (\<^verbatim>\<open>str\<close>, \<^verbatim>\<open>'R'\<close> or \<^verbatim>\<open>'D'\<close>) and of
  measurements (\<^verbatim>\<open>Optional[int]\<close>).  Every loop runs over \<^verbatim>\<open>zip(...)\<close>, which stops
  at the shortest of its arguments.
\<close>

type_synonym bit = int
type_synonym basis = string

subsection \<open>The random source\<close>

text \<open>
  Python's module-level generator is one hidden stream that every call advances.  It is
  threaded explicitly: a generator state is the stream of raw draws still to come, one
  draw per call.  Nothing is assumed about the draws, so a statement proved for every
  stream holds for every seed.
\<close>

type_synonym rng = "nat stream"

definition randint01 :: "rng \<Rightarrow> int \<times> rng" where
  \<comment> \<open>\<^verbatim>\<open>random.randint(0, 1)\<close>\<close>
  "randint01 g = (int (shd g mod 2), stl g)"

definition random_unit :: "rng \<Rightarrow> real \<times> rng" where
  \<comment> \<open>\<^verbatim>\<open>random.random()\<close>: a 53-bit fraction in [0, 1)\<close>
  "random_unit g = (real (shd g mod 2 ^ 53) / 2 ^ 53, stl g)"

definition randbelow :: "nat \<Rightarrow> rng \<Rightarrow> nat \<times> rng" where
  \<comment> \<open>\<^verbatim>\<open>random._randbelow(n)\<close>, called with \<open>n > 0\<close> only\<close>
  "randbelow n g = (shd g mod n, stl g)"

text \<open>
  \<^verbatim>\<open>random.sample(range(n), k)\<close>: \<^verbatim>\<open>ValueError\<close> unless \<open>0 \<le> k \<le> n\<close>; otherwise
  \<open>k\<close> selections from a pool, the selected slot being refilled with the last
  unselected entry:
  \<^verbatim>\<open>
    pool = list(population)
    for i in range(k):
        j = randbelow(n - i)
        result[i] = pool[j]
        pool[j] = pool[n - i - 1]
  \<close>
  For a population that is large against \<open>k\<close> the library records the selected
  positions in a set instead and draws again on a repeat; every result of that branch
  is a list of \<open>k\<close> different positions, which the pool selection produces on a
  suitable stream of draws.
\<close>

datatype py_error = ValueError | IndexError | ZeroDivisionError

fun sample_pool :: "nat list \<Rightarrow> nat \<Rightarrow> nat \<Rightarrow> nat \<Rightarrow> rng \<Rightarrow> nat list \<times> rng" where
  "sample_pool pool n i 0 g = ([], g)"
| "sample_pool pool n i (Suc r) g =
     (let (j, g1) = randbelow (n - i) g;
          x = pool ! j;
          pool' = pool[j := pool ! (n - i - 1)];
          (xs, g2) = sample_pool pool' n (Suc i) r g1
      in (x # xs, g2))"

definition random_sample :: "nat \<Rightarrow> int \<Rightarrow> rng \<Rightarrow> py_error + (nat list \<times> rng)" where
  "random_sample n k g =
     (if 0 \<le> k \<and> k \<le> int n then Inr (sample_pool [0..<n] n 0 (nat k) g)
      else Inl ValueError)"

subsection \<open>Bob's measurement on the honest channel\<close>

fun measure_loop :: "(bit \<times> basis \<times> basis) list \<Rightarrow> real \<Rightarrow> rng \<Rightarrow> bit option list \<times> rng" where
  "measure_loop [] noise_flip_prob g = ([], g)"
| "measure_loop ((b, Ba, Bb) # rest) noise_flip_prob g =
     (if Ba = Bb then
        (let (r, g1) = random_unit g;
             m = (if r < noise_flip_prob then b XOR 1 else b);
             (measured, g2) = measure_loop rest noise_flip_prob g1
         in (Some m # measured, g2))
      else
        (let (measured, g2) = measure_loop rest noise_flip_prob g
         in (None # measured, g2)))"

definition measure_py :: "bit list \<Rightarrow> basis list \<Rightarrow> basis list \<Rightarrow> real \<Rightarrow> rng \<Rightarrow> bit option list \<times> rng" where
  \<comment> \<open>\<^verbatim>\<open>measure\<close> of \<^verbatim>\<open>bb84_sim.py\<close>\<close>
  "measure_py bits alice_bases bob_bases noise_flip_prob g =
     measure_loop (zip bits (zip alice_bases bob_bases)) noise_flip_prob g"

subsection \<open>Eve's intercept-resend and Bob's measurement behind her\<close>

fun eve_loop :: "(bit \<times> basis \<times> basis) list \<Rightarrow> rng \<Rightarrow> bit list \<times> rng" where
  "eve_loop [] g = ([], g)"
| "eve_loop ((b, Ba, Be) # rest) g =
     (let (measured, g1) = (if Ba = Be then (b, g) else randint01 g);
          (out_bits, g2) = eve_loop rest g1
      in (measured # out_bits, g2))"

definition eve_intercept_resend :: "bit list \<Rightarrow> basis list \<Rightarrow> basis list \<Rightarrow> rng \<Rightarrow> (bit list \<times> basis list) \<times> rng" where
  "eve_intercept_resend alice_bits alice_bases eve_bases g =
     (let (out_bits, g1) = eve_loop (zip alice_bits (zip alice_bases eve_bases)) g
      in ((out_bits, eve_bases), g1))"

fun bob_loop :: "(bit \<times> basis \<times> basis) list \<Rightarrow> rng \<Rightarrow> bit option list \<times> rng" where
  "bob_loop [] g = ([], g)"
| "bob_loop ((bE, Be, Bb) # rest) g =
     (let (m, g1) = (if Be = Bb then (bE, g) else randint01 g);
          (measured, g2) = bob_loop rest g1
      in (Some m # measured, g2))"

definition bob_measure_against_eve :: "bit list \<Rightarrow> basis list \<Rightarrow> basis list \<Rightarrow> rng \<Rightarrow> bit option list \<times> rng" where
  "bob_measure_against_eve bits_from_eve eve_bases bob_bases g =
     bob_loop (zip bits_from_eve (zip eve_bases bob_bases)) g"

subsection \<open>Sifting\<close>

text \<open>
  \<^verbatim>\<open>extract_raw_key\<close> is the same function in both scripts (only the local names differ).
\<close>

fun extract_loop :: "(nat \<times> bit \<times> bit option \<times> basis \<times> basis) list \<Rightarrow> bit list \<times> bit list \<times> nat list" where
  "extract_loop [] = ([], [], [])"
| "extract_loop ((i, a, m, Ba, Bb) # rest) =
     (let (raw_A, raw_B, kept_idx) = extract_loop rest
      in if Ba = Bb \<and> m \<noteq> None then (a # raw_A, the m # raw_B, i # kept_idx)
         else (raw_A, raw_B, kept_idx))"

definition extract_raw_key :: "bit list \<Rightarrow> bit option list \<Rightarrow> basis list \<Rightarrow> basis list \<Rightarrow> bit list \<times> bit list \<times> nat list" where
  "extract_raw_key alice_bits measured alice_bases bob_bases =
     extract_loop (enumerate 0 (zip alice_bits (zip measured (zip alice_bases bob_bases))))"

subsection \<open>The QBER estimator\<close>

text \<open>
  \<^verbatim>\<open>sample_fraction: float | int\<close> is a tagged value.  For a float the size is
  \<^verbatim>\<open>max(1, int(round(n * sample_fraction)))\<close>: \<^verbatim>\<open>round\<close> rounds the float to the nearest
  integer, ties to even; the binary64 product \<^verbatim>\<open>n * sample_fraction\<close> is the parameter
  \<open>fmul\<close> (floats are read as the reals they denote).
\<close>

datatype sample_spec = Count int | Fraction real

definition py_round :: "real \<Rightarrow> int" where
  "py_round x =
     (let f = \<lfloor>x\<rfloor>; d = x - of_int f
      in if d < 1 / 2 then f else if 1 / 2 < d then f + 1
         else if even f then f else f + 1)"

fun count_mismatches :: "bit list \<Rightarrow> bit list \<Rightarrow> nat list \<Rightarrow> py_error + int" where
  \<comment> \<open>\<^verbatim>\<open>sum(1 for i in idxs if raw_A[i] != raw_B[i])\<close>; an index past the end raises\<close>
  "count_mismatches raw_A raw_B [] = Inr 0"
| "count_mismatches raw_A raw_B (i # idxs) =
     (if i < length raw_A \<and> i < length raw_B then
        (case count_mismatches raw_A raw_B idxs of
           Inl e \<Rightarrow> Inl e
         | Inr c \<Rightarrow> Inr ((if raw_A ! i \<noteq> raw_B ! i then 1 else 0) + c))
      else Inl IndexError)"

definition sample_size :: "(nat \<Rightarrow> real \<Rightarrow> real) \<Rightarrow> nat \<Rightarrow> sample_spec \<Rightarrow> int" where
  \<comment> \<open>the two assignments to \<^verbatim>\<open>k\<close>\<close>
  "sample_size fmul n sample_fraction =
     (let k = (case sample_fraction of
                 Count c \<Rightarrow> c
               | Fraction f \<Rightarrow> max 1 (py_round (fmul n f)))
      in min k (int n))"

definition sample_and_check :: "(nat \<Rightarrow> real \<Rightarrow> real) \<Rightarrow> bit list \<Rightarrow> bit list \<Rightarrow> sample_spec \<Rightarrow> rng \<Rightarrow> py_error + ((real \<times> int \<times> int) \<times> rng)" where
  "sample_and_check fmul raw_A raw_B sample_fraction g =
     (let n = length raw_A in
      if n = 0 then Inr ((0, 0, 0), g)
      else
        (let k = sample_size fmul n sample_fraction in
         case random_sample n k g of
           Inl e \<Rightarrow> Inl e
         | Inr (idxs, g1) \<Rightarrow>
             (case count_mismatches raw_A raw_B idxs of
                Inl e \<Rightarrow> Inl e
              | Inr mismatches \<Rightarrow>
                  if k = 0 then Inl ZeroDivisionError
                  else Inr ((real_of_int mismatches / real_of_int k, mismatches, k), g1))))"

definition sample_and_qber :: "(nat \<Rightarrow> real \<Rightarrow> real) \<Rightarrow> bit list \<Rightarrow> bit list \<Rightarrow> sample_spec \<Rightarrow> rng \<Rightarrow> py_error + ((real \<times> int \<times> int) \<times> rng)" where
  \<comment> \<open>the same body under its name in \<^verbatim>\<open>bb84_eve_sim.py\<close>\<close>
  "sample_and_qber = sample_and_check"


subsection \<open>The two runs of \<^verbatim>\<open>main\<close>\<close>

definition honest_raw_key :: "bit list \<Rightarrow> basis list \<Rightarrow> basis list \<Rightarrow> real \<Rightarrow> rng \<Rightarrow> (bit list \<times> bit list \<times> nat list) \<times> rng" where
  \<comment> \<open>steps 3 to 5 of \<^verbatim>\<open>bb84_sim.py\<close>: Bob measures, then the key is sifted\<close>
  "honest_raw_key alice_bits alice_bases bob_bases noise_flip_prob g =
     (let (measured, g1) = measure_py alice_bits alice_bases bob_bases noise_flip_prob g
      in (extract_raw_key alice_bits measured alice_bases bob_bases, g1))"

definition eve_channel :: "bit list \<Rightarrow> basis list \<Rightarrow> basis list \<Rightarrow> basis list \<Rightarrow> rng \<Rightarrow> bit option list \<times> rng" where
  \<comment> \<open>\<^verbatim>\<open>bb84_eve_sim.py\<close>: Eve relays, Bob measures what she sent in her bases\<close>
  "eve_channel alice_bits alice_bases eve_bases bob_bases g =
     (let ((bits_to_bob, bases_to_bob), g1) = eve_intercept_resend alice_bits alice_bases eve_bases g;
          (bob_measured, g2) = bob_measure_against_eve bits_to_bob bases_to_bob bob_bases g1
      in (bob_measured, g2))"

subsection \<open>Auxiliary notions\<close>

definition keep :: "nat \<times> bit \<times> bit option \<times> basis \<times> basis \<Rightarrow> bool" where
  \<comment> \<open>the test of the sifting loop on one entry of the enumeration\<close>
  "keep e = (case e of (i, a, m, Ba, Bb) \<Rightarrow> Ba = Bb \<and> m \<noteq> None)"

definition mismatches_before :: "basis list \<Rightarrow> basis list \<Rightarrow> nat \<Rightarrow> nat" where
  \<comment> \<open>how many positions before \<open>i\<close> have different bases: the draws used up so far\<close>
  "mismatches_before xs ys i = length (filter (\<lambda>j. xs ! j \<noteq> ys ! j) [0..<i])"

section \<open>Facts about the loops\<close>

subsection \<open>Sifting as a filter on positions\<close>

lemma extract_loop_filter:
  "extract_loop es =
     (map (\<lambda>(i, a, m, Ba, Bb). a) (filter keep es),
      map (\<lambda>(i, a, m, Ba, Bb). the m) (filter keep es),
      map fst (filter keep es))"
  by (induction es rule: extract_loop.induct) (auto simp: keep_def)

lemma enumerate_nth_map: "enumerate 0 zs = map (\<lambda>i. (i, zs ! i)) [0..<length zs]"
  by (rule nth_equalityI) (simp_all add: nth_enumerate_eq)

lemma extract_raw_key_char:
  fixes alice_bits measured alice_bases bob_bases
  defines "L \<equiv> min (length alice_bits) (min (length measured) (min (length alice_bases) (length bob_bases)))"
  defines "kept \<equiv> filter (\<lambda>i. alice_bases ! i = bob_bases ! i \<and> measured ! i \<noteq> None) [0..<L]"
  shows "extract_raw_key alice_bits measured alice_bases bob_bases =
           (map (\<lambda>i. alice_bits ! i) kept, map (\<lambda>i. the (measured ! i)) kept, kept)"
proof -
  let ?zs = "zip alice_bits (zip measured (zip alice_bases bob_bases))"
  have len: "length ?zs = L" by (simp add: L_def)
  have nth: "?zs ! i = (alice_bits ! i, measured ! i, alice_bases ! i, bob_bases ! i)" if "i < L" for i
    using that by (simp add: L_def)
  have flt: "filter (keep \<circ> (\<lambda>i. (i, ?zs ! i))) [0..<L] = kept"
    unfolding kept_def by (rule filter_cong) (auto simp: keep_def nth)
  have sub: "i < L" if "i \<in> set kept" for i using that by (auto simp: kept_def)
  show ?thesis
    unfolding extract_raw_key_def extract_loop_filter enumerate_nth_map len filter_map map_map flt
    by (auto simp: nth comp_def dest: sub)
qed

subsection \<open>The measurement loops, position by position\<close>

lemma measure_loop_length: "length (fst (measure_loop zs p g)) = length zs"
  by (induction zs p g rule: measure_loop.induct) (auto split: prod.splits)

lemma random_unit_nonneg: "\<not> fst (random_unit g) < 0"
  by (simp add: random_unit_def)

lemma measure_loop_noiseless:
  "fst (measure_loop zs 0 g) = map (\<lambda>(b, Ba, Bb). if Ba = Bb then Some b else None) zs"
proof (induction zs arbitrary: g)
  case Nil
  show ?case by simp
next
  case (Cons z zs)
  obtain b Ba Bb where z: "z = (b, Ba, Bb)" by (cases z)
  show ?case
  proof (cases "Ba = Bb")
    case True
    obtain r g1 where ru: "random_unit g = (r, g1)" by (cases "random_unit g")
    then have "\<not> r < 0" using random_unit_nonneg [of g] by simp
    with True z ru Cons.IH [of g1] show ?thesis by (simp add: case_prod_beta)
  next
    case False
    with z Cons.IH [of g] show ?thesis by (simp add: case_prod_beta)
  qed
qed

lemma eve_loop_length: "length (fst (eve_loop zs g)) = length zs"
  by (induction zs g rule: eve_loop.induct) (auto split: prod.splits)

text \<open>
  Where the bases differ the relayed bit is the next unused draw: its number is the
  count of earlier positions that also drew.
\<close>

lemma eve_loop_nth:
  "i < length zs \<Longrightarrow>
   fst (eve_loop zs g) ! i =
     (case zs ! i of (b, Ba, Be) \<Rightarrow>
        if Ba = Be then b
        else int (g !! length (filter (\<lambda>(b, Ba, Be). Ba \<noteq> Be) (take i zs)) mod 2))"
proof (induction zs arbitrary: i g)
  case Nil
  then show ?case by simp
next
  case (Cons z zs)
  obtain b Ba Be where z: "z = (b, Ba, Be)" by (cases z)
  show ?case
  proof (cases i)
    case 0
    with z show ?thesis by (simp add: randint01_def case_prod_beta)
  next
    case (Suc i')
    with Cons.prems have lt: "i' < length zs" by simp
    show ?thesis
    proof (cases "Ba = Be")
      case True
      with z Suc Cons.IH [OF lt, of g] show ?thesis by (simp add: case_prod_beta)
    next
      case False
      with z Suc Cons.IH [OF lt, of "stl g"] show ?thesis
        by (simp add: randint01_def case_prod_beta)
    qed
  qed
qed

lemma bob_loop_eve_loop: "bob_loop zs g = (map Some (fst (eve_loop zs g)), snd (eve_loop zs g))"
  by (induction zs g rule: eve_loop.induct) (auto split: prod.splits)

lemma bob_loop_length: "length (fst (bob_loop zs g)) = length zs"
  by (simp add: bob_loop_eve_loop eve_loop_length)

lemma take_zip3_mismatches:
  assumes "i \<le> length (zip bs (zip xs ys))"
  shows "length (filter (\<lambda>(b, Ba, Be). Ba \<noteq> Be) (take i (zip bs (zip xs ys)))) = mismatches_before xs ys i"
proof -
  let ?zs = "zip bs (zip xs ys)"
  have tk: "take i ?zs = map (\<lambda>j. ?zs ! j) [0..<i]"
    using assms by (intro nth_equalityI) simp_all
  have "filter ((\<lambda>(b, Ba, Be). Ba \<noteq> Be) \<circ> (\<lambda>j. ?zs ! j)) [0..<i] = filter (\<lambda>j. xs ! j \<noteq> ys ! j) [0..<i]"
    using assms by (intro filter_cong) auto
  then show ?thesis
    unfolding tk filter_map mismatches_before_def by simp
qed

lemma eve_intercept_resend_bits:
  fixes alice_bits alice_bases eve_bases g
  defines "L \<equiv> min (length alice_bits) (min (length alice_bases) (length eve_bases))"
  shows "fst (fst (eve_intercept_resend alice_bits alice_bases eve_bases g)) =
           map (\<lambda>i. if alice_bases ! i = eve_bases ! i then alice_bits ! i
                      else int (g !! mismatches_before alice_bases eve_bases i mod 2)) [0..<L]"
proof -
  let ?zs = "zip alice_bits (zip alice_bases eve_bases)"
  have len: "length ?zs = L" by (simp add: L_def)
  have out: "fst (fst (eve_intercept_resend alice_bits alice_bases eve_bases g)) = fst (eve_loop ?zs g)"
    by (simp add: eve_intercept_resend_def split: prod.splits)
  show ?thesis
    unfolding out
  proof (rule nth_equalityI)
    show "length (fst (eve_loop ?zs g)) = length (map (\<lambda>i. if alice_bases ! i = eve_bases ! i then alice_bits ! i
                      else int (g !! mismatches_before alice_bases eve_bases i mod 2)) [0..<L])"
      by (simp add: eve_loop_length L_def)
  next
    fix i assume "i < length (fst (eve_loop ?zs g))"
    then have i: "i < length ?zs" by (simp add: eve_loop_length)
    then have i': "i \<le> length ?zs" by simp
    have iL: "i < L" using i unfolding len .
    show "fst (eve_loop ?zs g) ! i = map (\<lambda>i. if alice_bases ! i = eve_bases ! i then alice_bits ! i
                      else int (g !! mismatches_before alice_bases eve_bases i mod 2)) [0..<L] ! i"
      unfolding eve_loop_nth [OF i] take_zip3_mismatches [OF i']
      using i iL by simp
  qed
qed

subsection \<open>Selection from the pool never repeats\<close>



section \<open>The claims\<close>

subsection \<open>The QBER estimator\<close>

text \<open>
  C9: when the sifted key is empty (\<^verbatim>\<open>len(raw_A) == 0\<close>) the estimator returns exactly
  \<open>(0.0, 0, 0)\<close>, in both scripts: no error, no division, and not one random draw.
\<close>

theorem sample_and_check_empty:
  "sample_and_check fmul [] raw_B sample_fraction g = Inr ((0, 0, 0), g)
   \<and> sample_and_qber fmul [] raw_B sample_fraction g = Inr ((0, 0, 0), g)"
  by (simp add: sample_and_check_def sample_and_qber_def)

text \<open>
  C1 asks that a sample size resolving to \<open>k \<le> 0\<close> on a non-empty key be treated as
  \<open>k = 1\<close>.  The estimator does not do so for an integer \<^verbatim>\<open>sample_fraction\<close>: on the
  one-bit keys \<open>[0]\<close>, \<open>[0]\<close> the count \<open>0\<close> draws an empty sample and then divides by
  \<open>k = 0\<close> (\<^verbatim>\<open>ZeroDivisionError\<close>), in both scripts, and the count \<open>-1\<close> is refused by
  \<^verbatim>\<open>random.sample\<close> (\<^verbatim>\<open>ValueError\<close>).  Only the float branch has \<^verbatim>\<open>max(1, ...)\<close>.
\<close>

theorem sample_and_check_zero_count_raises:
  "sample_and_check fmul [0] [0] (Count 0) g = Inl ZeroDivisionError
   \<and> sample_and_qber fmul [0] [0] (Count 0) g = Inl ZeroDivisionError
   \<and> sample_and_check fmul [0] [0] (Count (- 1)) g = Inl ValueError"
  by (simp add: sample_and_check_def sample_and_qber_def sample_size_def random_sample_def)



subsection \<open>Sifting\<close>

text \<open>
  C5: sifting keeps position \<open>i\<close> exactly when the bases agree at \<open>i\<close> and the
  measurement at \<open>i\<close> is not \<^verbatim>\<open>None\<close>; the kept positions come out in increasing
  order (the filter of \<open>0, 1, ...\<close>), \<open>raw_A\<close> holds Alice's bits and \<open>raw_B\<close> the
  measured bits at the kept positions.  The positions run up to the shortest input.
\<close>

theorem extract_raw_key_stable_filter:
  "case extract_raw_key alice_bits measured alice_bases bob_bases of
     (raw_A, raw_B, kept_idx) \<Rightarrow>
       kept_idx = filter (\<lambda>i. alice_bases ! i = bob_bases ! i \<and> measured ! i \<noteq> None)
         [0..<min (length alice_bits) (min (length measured) (min (length alice_bases) (length bob_bases)))]
       \<and> raw_A = map (\<lambda>i. alice_bits ! i) kept_idx
       \<and> map Some raw_B = map (\<lambda>i. measured ! i) kept_idx"
  by (simp add: extract_raw_key_char)

text \<open>
  C6: the three outputs of sifting have one length, at most the length of each input
  (so at most \<open>N\<close> when all inputs have length \<open>N\<close>), and the kept indices are strictly
  increasing.
\<close>

theorem extract_raw_key_lengths:
  "case extract_raw_key alice_bits measured alice_bases bob_bases of
     (raw_A, raw_B, kept_idx) \<Rightarrow>
       length raw_A = length raw_B \<and> length raw_B = length kept_idx
       \<and> length kept_idx \<le> length alice_bits \<and> length kept_idx \<le> length measured
       \<and> length kept_idx \<le> length alice_bases \<and> length kept_idx \<le> length bob_bases
       \<and> sorted_wrt (<) kept_idx"
proof -
  let ?L = "min (length alice_bits) (min (length measured) (min (length alice_bases) (length bob_bases)))"
  let ?kept = "filter (\<lambda>i. alice_bases ! i = bob_bases ! i \<and> measured ! i \<noteq> None) [0..<?L]"
  have "length ?kept \<le> length [0..<?L]" by (rule length_filter_le)
  then have "length ?kept \<le> ?L" by simp
  moreover have "sorted_wrt (<) ?kept" by (intro sorted_wrt_filter) simp
  ultimately show ?thesis by (simp add: extract_raw_key_char)
qed

subsection \<open>The honest channel\<close>

text \<open>
  C3: without eavesdropper and with \<^verbatim>\<open>noise_flip_prob = 0\<close>, the raw keys sifted from
  Bob's measurement are equal, bit for bit, whatever the length of the sequences and
  whatever the generator draws.
\<close>

theorem honest_noiseless_raw_keys_equal:
  "case honest_raw_key alice_bits alice_bases bob_bases 0 g of
     ((raw_A, raw_B, kept_idx), g1) \<Rightarrow> raw_A = raw_B"
proof -
  let ?zs = "zip alice_bits (zip alice_bases bob_bases)"
  let ?measured = "fst (measure_py alice_bits alice_bases bob_bases 0 g)"
  let ?L = "min (length alice_bits) (min (length ?measured) (min (length alice_bases) (length bob_bases)))"
  let ?kept = "filter (\<lambda>i. alice_bases ! i = bob_bases ! i \<and> ?measured ! i \<noteq> None) [0..<?L]"
  have m: "?measured = map (\<lambda>(b, Ba, Bb). if Ba = Bb then Some b else None) ?zs"
    by (simp add: measure_py_def measure_loop_noiseless)
  have nth: "?measured ! i = Some (alice_bits ! i)" if "i \<in> set ?kept" for i
  proof -
    from that have "i < ?L" "alice_bases ! i = bob_bases ! i" by simp_all
    then show ?thesis unfolding m by simp
  qed
  have "map (\<lambda>i. the (?measured ! i)) ?kept = map (\<lambda>i. alice_bits ! i) ?kept"
    by (rule map_cong [OF refl]) (simp only: nth option.sel)
  then show ?thesis
    by (simp add: honest_raw_key_def case_prod_beta extract_raw_key_char)
qed

subsection \<open>Unequal lengths\<close>

text \<open>
  C4 says that each component given sequences of unequal length fails fast.  None of
  them checks a length: \<^verbatim>\<open>measure\<close> on two bits, one basis of Alice and two of Bob
  returns the one measurement of position 0.
\<close>

theorem measure_unequal_lengths_returns:
  "length [0, 1 :: int] \<noteq> length [''R'']
   \<and> measure_py [0, 1] [''R''] [''R'', ''D''] 0 (sconst 0) = ([Some 0], sconst 0)"
  by (simp add: measure_py_def random_unit_def)

text \<open>
  C4, amended: \<^verbatim>\<open>measure\<close>, \<^verbatim>\<open>eve_intercept_resend\<close>, \<^verbatim>\<open>bob_measure_against_eve\<close> and
  \<^verbatim>\<open>extract_raw_key\<close> accept sequences of unequal length and return normally, having
  processed the positions below the shortest length; \<^verbatim>\<open>eve_intercept_resend\<close> returns
  all of \<^verbatim>\<open>eve_bases\<close> all the same.
\<close>

theorem unequal_lengths_truncated:
  "length (fst (measure_py bits alice_bases bob_bases noise_flip_prob g))
     = min (length bits) (min (length alice_bases) (length bob_bases))
   \<and> length (fst (fst (eve_intercept_resend alice_bits alice_bases eve_bases g)))
     = min (length alice_bits) (min (length alice_bases) (length eve_bases))
   \<and> snd (fst (eve_intercept_resend alice_bits alice_bases eve_bases g)) = eve_bases
   \<and> length (fst (bob_measure_against_eve bits_from_eve eve_bases bob_bases g))
     = min (length bits_from_eve) (min (length eve_bases) (length bob_bases))
   \<and> snd (snd (extract_raw_key alice_bits measured alice_bases bob_bases))
     = filter (\<lambda>i. alice_bases ! i = bob_bases ! i \<and> measured ! i \<noteq> None)
         [0..<min (length alice_bits) (min (length measured) (min (length alice_bases) (length bob_bases)))]"
  by (simp add: measure_py_def measure_loop_length eve_intercept_resend_def case_prod_beta
      eve_loop_length bob_measure_against_eve_def bob_loop_length extract_raw_key_char)

subsection \<open>The eavesdropper\<close>

text \<open>
  C8: \<^verbatim>\<open>eve_intercept_resend\<close> returns Eve's own bases, and as bits, position by
  position, Alice's bit where Eve's basis is Alice's and otherwise a bit drawn with
  \<^verbatim>\<open>random.randint(0, 1)\<close>: the next unused draw of the generator, so that no two
  positions share a draw.  (That a draw is uniform is the generator's property.)
\<close>

theorem eve_intercept_resend_output:
  "eve_intercept_resend alice_bits alice_bases eve_bases g =
     ((map (\<lambda>i. if alice_bases ! i = eve_bases ! i then alice_bits ! i
                   else int (g !! mismatches_before alice_bases eve_bases i mod 2))
         [0..<min (length alice_bits) (min (length alice_bases) (length eve_bases))],
       eve_bases),
      snd (eve_intercept_resend alice_bits alice_bases eve_bases g))"
proof -
  have "snd (fst (eve_intercept_resend alice_bits alice_bases eve_bases g)) = eve_bases"
    by (simp add: eve_intercept_resend_def case_prod_beta)
  then show ?thesis
    using eve_intercept_resend_bits [of alice_bits alice_bases eve_bases g]
    by (metis prod.collapse)
qed

text \<open>
  C2: at every position where Eve's basis is Alice's and Bob's basis is Eve's, the bit
  Bob measures behind Eve is Alice's bit.
\<close>

theorem eve_chain_correlated:
  assumes "i < length alice_bits" and "i < length alice_bases"
    and "i < length eve_bases" and "i < length bob_bases"
    and "eve_bases ! i = alice_bases ! i" and "bob_bases ! i = eve_bases ! i"
  shows "fst (eve_channel alice_bits alice_bases eve_bases bob_bases g) ! i = Some (alice_bits ! i)"
proof -
  let ?ez = "zip alice_bits (zip alice_bases eve_bases)"
  let ?out = "fst (eve_loop ?ez g)"
  let ?bz = "zip ?out (zip eve_bases bob_bases)"
  have ie: "i < length ?ez" using assms by simp
  have out: "?out ! i = alice_bits ! i"
    using assms by (simp add: eve_loop_nth [OF ie])
  have ib: "i < length ?bz" using assms by (simp add: eve_loop_length)
  have "fst (bob_loop ?bz (snd (eve_loop ?ez g))) ! i = Some (?out ! i)"
    using assms ib by (simp add: bob_loop_eve_loop eve_loop_length eve_loop_nth)
  then show ?thesis
    by (simp add: eve_channel_def eve_intercept_resend_def bob_measure_against_eve_def
        case_prod_beta out)
qed

text \<open>
  Two photons, all three bases \<open>R\<close> at position 0: Bob reads Alice's 1 there.
\<close>

theorem eve_chain_correlated_witness:
  "(0 :: nat) < length [1, 0 :: int]
   \<and> [''R'', ''R''] ! 0 = [''R'', ''D''] ! 0 \<and> [''R'', ''D''] ! 0 = [''R'', ''R''] ! 0
   \<and> fst (eve_channel [1, 0] [''R'', ''D''] [''R'', ''R''] [''R'', ''D''] (sconst 1)) ! 0 = Some 1"
  using eve_chain_correlated [of 0 "[1, 0]" "[''R'', ''D'']" "[''R'', ''R'']" "[''R'', ''D'']" "sconst 1"]
  by simp


end
